theory Spec2Isabelle
  imports Main
begin

section \<open>Version parsing and comparison of \<open>src/util.ts\<close>\<close>

text \<open>
  The embedding covers \<open>parseVersion\<close>, \<open>compareVersion\<close>, \<open>versionToString\<close>,
  \<open>compareVersions\<close> and the five boolean wrappers of \<open>src/util.ts\<close>.

  Conventions of the embedding:
  \<^item> a TypeScript \<open>string\<close> is a \<open>char list\<close>;
  \<^item> a TypeScript \<open>number\<close> that holds an integer is an \<open>int\<close>. The embedding does
    arithmetic on mathematical integers; an IEEE double holds every integer of
    magnitude below \<open>2 ^ 53\<close> exactly, and the number-to-string conversion prints plain
    decimal digits below \<open>10 ^ 21\<close>, so that is the range in which embedding and
    program agree digit for digit;
  \<^item> a thrown exception is the \<open>Inl\<close> branch of a sum type;
  \<^item> \<open>undefined\<close> (an array slot or capture group that is absent) is \<open>None\<close>.
\<close>

subsection \<open>Characters, \<open>parseInt\<close> and number rendering\<close>

text \<open>The class \<open>\d\<close> of a regular expression: the code units \<open>0x30\<close> to \<open>0x39\<close>.\<close>

definition isDigit :: "char \<Rightarrow> bool" where
  "isDigit c \<longleftrightarrow> (48::nat) \<le> of_char c \<and> of_char c \<le> (57::nat)"

text \<open>
  The class \<open>.\<close> of a regular expression (without the \<open>s\<close> flag) is every character
  that is no line terminator. Of the four line terminators, line feed and carriage
  return are characters of the embedding.
\<close>

definition isLineTerminator :: "char \<Rightarrow> bool" where
  "isLineTerminator c \<longleftrightarrow> c = CHR 0x0A \<or> c = CHR 0x0D"

definition isAnyChar :: "char \<Rightarrow> bool" where
  "isAnyChar c \<longleftrightarrow> \<not> isLineTerminator c"

definition digitValue :: "char \<Rightarrow> nat" where
  "digitValue c = of_char c - 48"


text \<open>
  \<open>parseInt(str)\<close> with the radix left out, on a string that begins with a decimal
  digit: the value, in base 10, of the longest prefix of digits. (On a string with no
  leading digit the program's \<open>parseInt\<close> gives \<open>NaN\<close>, or reads a sign, white space or
  a \<open>0x\<close> prefix; \<open>parseVersion\<close> never passes such a string: every string it
  passes is a capture group of one or more digits, as is proved below.)
\<close>

definition parseInt :: "string \<Rightarrow> int" where
  "parseInt str = int (foldl (\<lambda>acc c. 10 * acc + digitValue c) 0 (takeWhile isDigit str))"




subsection \<open>The regular expression \<open>/(\d+)\.(\d+)\.(\d+)(.*)/\<close>\<close>

text \<open>
  A greedy quantifier over a character class offers the matcher every prefix of the
  longest run of characters of the class, the longest first; the matcher backtracks
  through them in that order. \<open>greedyStar\<close> lists the candidates of \<open>C*\<close> as pairs of
  the text consumed and the text left, \<open>greedyPlus\<close> those of \<open>C+\<close>.
\<close>

fun greedyStar :: "(char \<Rightarrow> bool) \<Rightarrow> string \<Rightarrow> (string \<times> string) list" where
  "greedyStar C [] = [([], [])]"
| "greedyStar C (c # cs) =
     (if C c then map (\<lambda>(m, r). (c # m, r)) (greedyStar C cs) else []) @ [([], c # cs)]"

definition greedyPlus :: "(char \<Rightarrow> bool) \<Rightarrow> string \<Rightarrow> (string \<times> string) list" where
  "greedyPlus C s = filter (\<lambda>(m, r). m \<noteq> []) (greedyStar C s)"

text \<open>Backtracking: the first candidate on which the rest of the pattern matches.\<close>

fun firstMatch :: "('a \<Rightarrow> 'b option) \<Rightarrow> 'a list \<Rightarrow> 'b option" where
  "firstMatch k [] = None"
| "firstMatch k (x # xs) = (case k x of Some y \<Rightarrow> Some y | None \<Rightarrow> firstMatch k xs)"

text \<open>The literal \<open>\.\<close> of the pattern.\<close>

definition literalDot :: "string \<Rightarrow> (string \<Rightarrow> 'b option) \<Rightarrow> 'b option" where
  "literalDot s k = (case s of [] \<Rightarrow> None | c # r \<Rightarrow> if c = CHR ''.'' then k r else None)"

text \<open>
  The array that \<open>exec\<close> returns: slot 0 is the text matched, slots 1 to 4 are the
  capture groups, a group that took no part in the match being \<open>undefined\<close>.
\<close>

type_synonym RegExpExecArray = "string option list"

text \<open>Reading slot \<open>i\<close> of an array: \<open>undefined\<close> beyond its length.\<close>

definition element :: "'a option list \<Rightarrow> nat \<Rightarrow> 'a option" where
  "element xs i = (if i < length xs then xs ! i else None)"

text \<open>An attempt to match the pattern at the beginning of \<open>s\<close>.\<close>

definition version_re_at :: "string \<Rightarrow> RegExpExecArray option" where
  "version_re_at s =
     firstMatch (\<lambda>(g1, r1). literalDot r1 (\<lambda>r2.
       firstMatch (\<lambda>(g2, r3). literalDot r3 (\<lambda>r4.
         firstMatch (\<lambda>(g3, r5).
           firstMatch (\<lambda>(g4, r6).
               Some [Some (g1 @ ''.'' @ g2 @ ''.'' @ g3 @ g4), Some g1, Some g2, Some g3, Some g4])
             (greedyStar isAnyChar r5))
           (greedyPlus isDigit r4)))
         (greedyPlus isDigit r2)))
       (greedyPlus isDigit s)"

text \<open>
  \<open>version_re.exec(str)\<close>: the pattern has no flag and no anchor, so the attempts
  start at index 0, then 1, and so on up to the end of the string. The result is the
  index of the first attempt that matches, with its array.
\<close>

fun version_re_exec :: "string \<Rightarrow> (nat \<times> RegExpExecArray) option" where
  "version_re_exec [] = map_option (Pair 0) (version_re_at [])"
| "version_re_exec (c # cs) =
     (case version_re_at (c # cs) of
        Some mat \<Rightarrow> Some (0, mat)
      | None \<Rightarrow> map_option (\<lambda>(i, mat). (Suc i, mat)) (version_re_exec cs))"

subsection \<open>\<open>localize\<close>\<close>

text \<open>
  Modelled from the spec: \<open>localize(key, message, ...args)\<close> belongs to the library
  \<open>vscode-nls\<close>, and neither the library nor a message bundle is among the sources.
  The spec has the error message carry the offending input string. The model is the
  library's formatting of the message it is given, as with the default language: every
  placeholder \<open>{\<close>digits\<open>}\<close> is replaced by the argument whose index is the first of the
  digits, and by the text \<open>undefined\<close> when there is no such argument.
\<close>

function format :: "string \<Rightarrow> string list \<Rightarrow> string" where
  "format [] args = []"
| "format (c # cs) args =
     (let ds = takeWhile isDigit cs; r = dropWhile isDigit cs
      in if c = CHR ''{'' \<and> ds \<noteq> [] \<and> r \<noteq> [] \<and> hd r = CHR ''}''
         then (case element (map Some args) (digitValue (hd ds)) of
                 Some arg \<Rightarrow> arg
               | None \<Rightarrow> ''undefined'') @ format (tl r) args
         else c # format cs args)"
  by pat_completeness auto
termination
  apply (relation "measure (\<lambda>(m, args). length m)")
    apply simp
  subgoal for c cs args ds r
    using length_dropWhile_le [of isDigit cs] by (cases "dropWhile isDigit cs") auto
  apply simp
  done

definition localize :: "string \<Rightarrow> string \<Rightarrow> string list \<Rightarrow> string" where
  "localize key message args = (if args = [] then message else format message args)"

subsection \<open>\<open>Version\<close>, \<open>parseVersion\<close>, \<open>compareVersion\<close>, \<open>versionToString\<close>\<close>

datatype error = InvalidVersionString string

record Version =
  major :: int
  minor :: int
  patch :: int

text \<open>The operator \<open>??\<close>: the right operand where the left one is \<open>undefined\<close>.\<close>

definition nullish :: "'a option \<Rightarrow> 'a \<Rightarrow> 'a" where
  "nullish x d = (case x of None \<Rightarrow> d | Some v \<Rightarrow> v)"

definition parseVersion :: "string \<Rightarrow> error + Version" where
  "parseVersion str =
     (case version_re_exec str of
        None \<Rightarrow>
          Inl (InvalidVersionString
                (localize ''invalid.version.string'' ''Invalid version string {0}'' [str]))
      | Some (i, mat) \<Rightarrow>
          Inr \<lparr> major = parseInt (nullish (element mat 1) ''0''),
                minor = parseInt (nullish (element mat 2) ''0''),
                patch = parseInt (nullish (element mat 3) ''0'') \<rparr>)"

definition compareVersion :: "Version \<Rightarrow> Version \<Rightarrow> int" where
  "compareVersion va vb =
     (if major va \<noteq> major vb then major va - major vb
      else if minor va \<noteq> minor vb then minor va - minor vb
      else patch va - patch vb)"


subsection \<open>\<open>Ordering\<close>, \<open>compareVersions\<close> and the boolean wrappers\<close>

datatype Ordering = Greater | Equivalent | Less

text \<open>An argument of type \<open>Version | string\<close>.\<close>

datatype VersionOrString = AsVersion Version | AsString string

text \<open>The step \<open>if (typeof a === 'string') { a = parseVersion(a); }\<close>.\<close>

definition parseIfString :: "VersionOrString \<Rightarrow> error + Version" where
  "parseIfString a = (case a of AsString s \<Rightarrow> parseVersion s | AsVersion v \<Rightarrow> Inr v)"

definition compareVersions :: "VersionOrString \<Rightarrow> VersionOrString \<Rightarrow> error + Ordering" where
  "compareVersions a b =
     (case parseIfString a of
        Inl e \<Rightarrow> Inl e
      | Inr a \<Rightarrow>
          (case parseIfString b of
             Inl e \<Rightarrow> Inl e
           | Inr b \<Rightarrow>
               Inr (if major a > major b then Greater
                    else if major a < major b then Less
                    else if minor a > minor b then Greater
                    else if minor a < minor b then Less
                    else if patch a > patch b then Greater
                    else if patch a < patch b then Less
                    else Equivalent)))"

definition versionGreater :: "VersionOrString \<Rightarrow> VersionOrString \<Rightarrow> error + bool" where
  "versionGreater lhs rhs =
     (case compareVersions lhs rhs of Inl e \<Rightarrow> Inl e | Inr res \<Rightarrow> Inr (res = Greater))"

definition versionGreaterOrEquals :: "VersionOrString \<Rightarrow> VersionOrString \<Rightarrow> error + bool" where
  "versionGreaterOrEquals lhs rhs =
     (case compareVersions lhs rhs of
        Inl e \<Rightarrow> Inl e
      | Inr res \<Rightarrow> Inr (Greater = res \<or> Equivalent = res))"

definition versionEquals :: "VersionOrString \<Rightarrow> VersionOrString \<Rightarrow> error + bool" where
  "versionEquals lhs rhs =
     (case compareVersions lhs rhs of Inl e \<Rightarrow> Inl e | Inr res \<Rightarrow> Inr (res = Equivalent))"

definition versionLess :: "VersionOrString \<Rightarrow> VersionOrString \<Rightarrow> error + bool" where
  "versionLess lhs rhs =
     (case compareVersions lhs rhs of Inl e \<Rightarrow> Inl e | Inr res \<Rightarrow> Inr (res = Less))"

definition versionLessOrEquals :: "VersionOrString \<Rightarrow> VersionOrString \<Rightarrow> error + bool" where
  "versionLessOrEquals lhs rhs =
     (case compareVersions lhs rhs of
        Inl e \<Rightarrow> Inl e
      | Inr res \<Rightarrow> Inr (Less = res \<or> Equivalent = res))"

subsection \<open>Notions of the specification\<close>

text \<open>A digit group: one or more decimal digits.\<close>

definition digitString :: "string \<Rightarrow> bool" where
  "digitString ds \<longleftrightarrow> ds \<noteq> [] \<and> list_all isDigit ds"


text \<open>
  The string begins with digits, a dot, digits, a dot, digits; and the string
  contains a substring of that form.
\<close>

definition beginsWithVersion :: "string \<Rightarrow> bool" where
  "beginsWithVersion s \<longleftrightarrow>
     (\<exists>d1 d2 d3 rest. digitString d1 \<and> digitString d2 \<and> digitString d3 \<and>
        s = d1 @ ''.'' @ d2 @ ''.'' @ d3 @ rest)"

definition containsVersion :: "string \<Rightarrow> bool" where
  "containsVersion s \<longleftrightarrow> (\<exists>pre suf. s = pre @ suf \<and> beginsWithVersion suf)"


text \<open>The array of a match whose four groups are \<open>g1\<close>, \<open>g2\<close>, \<open>g3\<close> and \<open>g4\<close>.\<close>

definition matchArray :: "string \<Rightarrow> string \<Rightarrow> string \<Rightarrow> string \<Rightarrow> RegExpExecArray" where
  "matchArray g1 g2 g3 g4 =
     [Some (g1 @ ''.'' @ g2 @ ''.'' @ g3 @ g4), Some g1, Some g2, Some g3, Some g4]"

section \<open>The matcher\<close>

lemma firstMatch_append:
  "firstMatch k (xs @ ys) = (case firstMatch k xs of Some y \<Rightarrow> Some y | None \<Rightarrow> firstMatch k ys)"
  by (induction xs) (auto split: option.splits)

lemma firstMatch_map: "firstMatch k (map f xs) = firstMatch (\<lambda>x. k (f x)) xs"
  by (induction xs) (auto split: option.splits)

lemma firstMatch_filter:
  "firstMatch k (filter Q xs) = firstMatch (\<lambda>x. if Q x then k x else None) xs"
  by (induction xs) (auto split: option.splits)

text \<open>
  Where the rest of the pattern cannot go on with a character of the class, only the
  longest candidate can succeed: every shorter one leaves such a character next.
\<close>

lemma firstMatch_greedyStar:
  assumes "\<And>m c r. C c \<Longrightarrow> k (m, c # r) = None"
  shows "firstMatch k (greedyStar C s) = k (takeWhile C s, dropWhile C s)"
  using assms
proof (induction s arbitrary: k)
  case Nil
  then show ?case by (simp split: option.splits)
next
  case (Cons c cs)
  show ?case
  proof (cases "C c")
    case True
    have "firstMatch (\<lambda>x. k (case x of (m, r) \<Rightarrow> (c # m, r))) (greedyStar C cs)
            = k (c # takeWhile C cs, dropWhile C cs)"
      using Cons.IH [of "\<lambda>x. k (case x of (m, r) \<Rightarrow> (c # m, r))"] Cons.prems by simp
    with True Cons.prems show ?thesis
      by (simp add: firstMatch_append firstMatch_map split: option.splits)
  next
    case False
    then show ?thesis by (simp split: option.splits)
  qed
qed

lemma firstMatch_greedyPlus:
  assumes "\<And>m c r. C c \<Longrightarrow> k (m, c # r) = None"
  shows "firstMatch k (greedyPlus C s) =
           (if takeWhile C s = [] then None else k (takeWhile C s, dropWhile C s))"
proof -
  have "firstMatch (\<lambda>x. if (case x of (m, r) \<Rightarrow> m \<noteq> []) then k x else None) (greedyStar C s)
          = (\<lambda>x. if (case x of (m, r) \<Rightarrow> m \<noteq> []) then k x else None) (takeWhile C s, dropWhile C s)"
    by (rule firstMatch_greedyStar) (simp add: assms)
  then show ?thesis
    by (simp add: greedyPlus_def firstMatch_filter)
qed

lemma greedyStar_head: "\<exists>rest. greedyStar C s = (takeWhile C s, dropWhile C s) # rest"
  by (induction s) auto

lemma greedyStar_run: "(m, r) \<in> set (greedyStar C s) \<Longrightarrow> m \<noteq> [] \<Longrightarrow> takeWhile C s \<noteq> []"
  by (cases s) (auto split: if_splits)

lemma greedyPlus_cases:
  "greedyPlus C s = (if takeWhile C s = [] then []
     else (takeWhile C s, dropWhile C s) # tl (greedyPlus C s))"
proof (cases "takeWhile C s = []")
  case True
  then have "\<forall>x \<in> set (greedyStar C s). \<not> (case x of (m, r) \<Rightarrow> m \<noteq> [])"
    using greedyStar_run [of _ _ C s] by auto
  then have "greedyPlus C s = []"
    unfolding greedyPlus_def by (simp add: filter_empty_conv)
  with True show ?thesis by simp
next
  case False
  obtain rest where "greedyStar C s = (takeWhile C s, dropWhile C s) # rest"
    using greedyStar_head by blast
  with False show ?thesis by (simp add: greedyPlus_def)
qed

lemma firstMatch_star_Some:
  "firstMatch (\<lambda>(m, r). Some (f m)) (greedyStar C s) = Some (f (takeWhile C s))"
proof -
  obtain rest where "greedyStar C s = (takeWhile C s, dropWhile C s) # rest"
    using greedyStar_head by blast
  then show ?thesis by simp
qed

lemma firstMatch_plus_Some:
  "firstMatch (\<lambda>(m, r). Some (f m r)) (greedyPlus C s) =
     (if takeWhile C s = [] then None else Some (f (takeWhile C s) (dropWhile C s)))"
  by (subst greedyPlus_cases) simp

lemma not_isDigit_dot [simp]: "\<not> isDigit CHR ''.''"
  by (simp add: isDigit_def)

lemma literalDot_simps:
  "literalDot [] k = None"
  "literalDot (c # r) k = (if c = CHR ''.'' then k r else None)"
  by (simp_all add: literalDot_def)

lemma re_tail:
  "firstMatch (\<lambda>(g3, r5). firstMatch (\<lambda>(g4, r6). Some (F g3 g4)) (greedyStar D r5))
       (greedyPlus C r4)
     = (if takeWhile C r4 = [] then None
        else Some (F (takeWhile C r4) (takeWhile D (dropWhile C r4))))"
  by (simp add: firstMatch_plus_Some firstMatch_star_Some)

lemma re_mid:
  "firstMatch (\<lambda>(g2, r3). literalDot r3 (\<lambda>r4.
       firstMatch (\<lambda>(g3, r5). firstMatch (\<lambda>(g4, r6). Some (F g2 g3 g4)) (greedyStar D r5))
         (greedyPlus isDigit r4)))
     (greedyPlus isDigit r2)
   = (if takeWhile isDigit r2 = [] then None
      else case dropWhile isDigit r2 of
             [] \<Rightarrow> None
           | c2 # r4 \<Rightarrow>
               if c2 \<noteq> CHR ''.'' \<or> takeWhile isDigit r4 = [] then None
               else Some (F (takeWhile isDigit r2) (takeWhile isDigit r4)
                            (takeWhile D (dropWhile isDigit r4))))"
  apply (rule trans [OF firstMatch_greedyPlus])
   apply (auto simp: literalDot_def)[1]
  apply (cases "dropWhile isDigit r2")
   apply (simp_all add: re_tail literalDot_simps del: dropWhile_eq_Nil_conv)
  done

lemma re_all:
  "firstMatch (\<lambda>(g1, r1). literalDot r1 (\<lambda>r2.
     firstMatch (\<lambda>(g2, r3). literalDot r3 (\<lambda>r4.
       firstMatch (\<lambda>(g3, r5). firstMatch (\<lambda>(g4, r6). Some (F g1 g2 g3 g4)) (greedyStar D r5))
         (greedyPlus isDigit r4)))
     (greedyPlus isDigit r2)))
    (greedyPlus isDigit s)
   = (if takeWhile isDigit s = [] then None
      else case dropWhile isDigit s of
             [] \<Rightarrow> None
           | c1 # r2 \<Rightarrow>
               if c1 \<noteq> CHR ''.'' \<or> takeWhile isDigit r2 = [] then None
               else (case dropWhile isDigit r2 of
                 [] \<Rightarrow> None
               | c2 # r4 \<Rightarrow>
                  if c2 \<noteq> CHR ''.'' \<or> takeWhile isDigit r4 = [] then None
                  else Some (F (takeWhile isDigit s) (takeWhile isDigit r2) (takeWhile isDigit r4)
                            (takeWhile D (dropWhile isDigit r4)))))"
  apply (rule trans [OF firstMatch_greedyPlus])
   apply (auto simp: literalDot_def)[1]
  apply (cases "dropWhile isDigit s")
   apply (simp_all add: re_mid literalDot_simps del: dropWhile_eq_Nil_conv)
  done

text \<open>
  Hence the pattern is deterministic: each digit group is the longest run of digits,
  and the fourth group runs to the end of the line.
\<close>

lemma version_re_at_eq:
  "version_re_at s =
     (if takeWhile isDigit s = [] then None
      else case dropWhile isDigit s of
             [] \<Rightarrow> None
           | c1 # r2 \<Rightarrow>
               if c1 \<noteq> CHR ''.'' \<or> takeWhile isDigit r2 = [] then None
               else (case dropWhile isDigit r2 of
                 [] \<Rightarrow> None
               | c2 # r4 \<Rightarrow>
                  if c2 \<noteq> CHR ''.'' \<or> takeWhile isDigit r4 = [] then None
                  else Some (matchArray (takeWhile isDigit s) (takeWhile isDigit r2)
                               (takeWhile isDigit r4)
                               (takeWhile isAnyChar (dropWhile isDigit r4)))))"
  unfolding version_re_at_def matchArray_def [symmetric] by (rule re_all)

lemma digitString_takeWhile:
  assumes "digitString d" and "rest = [] \<or> \<not> isDigit (hd rest)"
  shows "takeWhile isDigit (d @ rest) = d" and "dropWhile isDigit (d @ rest) = rest"
proof -
  from assms(1) have all: "\<forall>c \<in> set d. isDigit c"
    by (simp add: digitString_def list_all_iff)
  from assms(2) have "takeWhile isDigit rest = []" and "dropWhile isDigit rest = rest"
    by (cases rest; simp)+
  with all show "takeWhile isDigit (d @ rest) = d" and "dropWhile isDigit (d @ rest) = rest"
    by simp_all
qed

lemma digitString_dot:
  assumes "digitString d"
  shows "takeWhile isDigit (d @ CHR ''.'' # rest) = d"
    and "dropWhile isDigit (d @ CHR ''.'' # rest) = CHR ''.'' # rest"
  using digitString_takeWhile [OF assms, of "CHR ''.'' # rest"] by simp_all

lemma digitString_run:
  assumes "digitString d"
  shows "takeWhile isDigit (d @ rest) = d @ takeWhile isDigit rest"
    and "dropWhile isDigit (d @ rest) = dropWhile isDigit rest"
    and "takeWhile isDigit (d @ rest) \<noteq> []"
  using assms by (simp_all add: digitString_def list_all_iff)

lemma digitString_not_Nil: "digitString d \<Longrightarrow> d \<noteq> []"
  by (simp add: digitString_def)

lemma version_re_at_decomposed:
  assumes "digitString d1" and "digitString d2" and "digitString d3"
  shows "version_re_at (d1 @ ''.'' @ d2 @ ''.'' @ d3 @ rest) =
           Some (matchArray d1 d2 (d3 @ takeWhile isDigit rest)
                   (takeWhile isAnyChar (dropWhile isDigit rest)))"
  using assms
  by (simp add: version_re_at_eq digitString_dot digitString_run digitString_not_Nil)

lemma digitString_takeWhile_self:
  "takeWhile isDigit s \<noteq> [] \<Longrightarrow> digitString (takeWhile isDigit s)"
  by (auto simp: digitString_def list_all_iff dest: set_takeWhileD)

lemma version_re_at_SomeD:
  assumes "version_re_at s = Some mat"
  shows "\<exists>d1 d2 d3 rest. digitString d1 \<and> digitString d2 \<and> digitString d3 \<and>
           (rest = [] \<or> \<not> isDigit (hd rest)) \<and>
           s = d1 @ ''.'' @ d2 @ ''.'' @ d3 @ rest \<and>
           mat = matchArray d1 d2 d3 (takeWhile isAnyChar rest)"
proof -
  define d1 where "d1 = takeWhile isDigit s"
  from assms have n1: "d1 \<noteq> []"
    by (auto simp: version_re_at_eq d1_def split: if_splits)
  from assms n1 obtain r2 where r2: "dropWhile isDigit s = CHR ''.'' # r2"
    by (auto simp: version_re_at_eq d1_def split: if_splits list.splits)
  define d2 where "d2 = takeWhile isDigit r2"
  from assms n1 r2 have n2: "d2 \<noteq> []"
    by (auto simp: version_re_at_eq d1_def d2_def split: if_splits)
  from assms n1 r2 n2 obtain r4 where r4: "dropWhile isDigit r2 = CHR ''.'' # r4"
    by (auto simp: version_re_at_eq d1_def d2_def split: if_splits list.splits)
  define d3 where "d3 = takeWhile isDigit r4"
  from assms n1 r2 n2 r4 have n3: "d3 \<noteq> []"
    and mat: "mat = matchArray d1 d2 d3 (takeWhile isAnyChar (dropWhile isDigit r4))"
    by (auto simp: version_re_at_eq d1_def d2_def d3_def split: if_splits)
  have s: "s = d1 @ ''.'' @ d2 @ ''.'' @ d3 @ dropWhile isDigit r4"
  proof -
    have "s = d1 @ dropWhile isDigit s" by (simp add: d1_def)
    also have "dropWhile isDigit s = CHR ''.'' # d2 @ dropWhile isDigit r2"
      by (simp add: r2 d2_def)
    also have "dropWhile isDigit r2 = CHR ''.'' # d3 @ dropWhile isDigit r4"
      by (simp add: r4 d3_def)
    finally show ?thesis by simp
  qed
  have stop: "dropWhile isDigit r4 = [] \<or> \<not> isDigit (hd (dropWhile isDigit r4))"
    using hd_dropWhile [of isDigit r4] by blast
  have "digitString d1" "digitString d2" "digitString d3"
    using n1 n2 n3 by (simp_all add: d1_def d2_def d3_def digitString_takeWhile_self)
  with s mat stop show ?thesis by blast
qed

lemma version_re_at_iff: "version_re_at s \<noteq> None \<longleftrightarrow> beginsWithVersion s"
proof
  assume "version_re_at s \<noteq> None"
  then obtain mat where "version_re_at s = Some mat" by blast
  from version_re_at_SomeD [OF this] show "beginsWithVersion s"
    unfolding beginsWithVersion_def by blast
next
  assume "beginsWithVersion s"
  then show "version_re_at s \<noteq> None"
    unfolding beginsWithVersion_def using version_re_at_decomposed by fastforce
qed

lemma containsVersion_Nil: "\<not> containsVersion []"
  by (auto simp: containsVersion_def beginsWithVersion_def digitString_def)

lemma containsVersion_Cons:
  "containsVersion (c # cs) \<longleftrightarrow> beginsWithVersion (c # cs) \<or> containsVersion cs"
proof -
  have "containsVersion (c # cs) \<longleftrightarrow>
      (\<exists>pre suf. c # cs = pre @ suf \<and> beginsWithVersion suf)"
    by (simp add: containsVersion_def)
  also have "\<dots> \<longleftrightarrow> beginsWithVersion (c # cs) \<or>
      (\<exists>pre suf. cs = pre @ suf \<and> beginsWithVersion suf)"
    by (auto simp: Cons_eq_append_conv)
  finally show ?thesis by (simp add: containsVersion_def)
qed

lemma version_re_exec_None_iff: "version_re_exec s = None \<longleftrightarrow> \<not> containsVersion s"
proof (induction s)
  case Nil
  have "version_re_at [] = None" by (simp add: version_re_at_eq)
  then show ?case by (simp add: containsVersion_Nil)
next
  case (Cons c cs)
  show ?case
    using Cons.IH version_re_at_iff [of "c # cs"]
    by (auto simp: containsVersion_Cons split: option.splits)
qed



section \<open>Decimal digits\<close>











section \<open>\<open>parseVersion\<close>\<close>



lemma localize_message:
  "localize key ''Invalid version string {0}'' [str] = ''Invalid version string '' @ str"
  by (simp add: localize_def isDigit_def element_def digitValue_def Let_def)

lemma parseVersion_no_match:
  assumes "version_re_exec s = None"
  shows "parseVersion s = Inl (InvalidVersionString (''Invalid version string '' @ s))"
  using assms by (simp add: parseVersion_def localize_message)






section \<open>The claims\<close>

lemma compareVersions_AsVersion:
  "compareVersions (AsVersion a) (AsVersion b) =
     Inr (if major a > major b then Greater
          else if major a < major b then Less
          else if minor a > minor b then Greater
          else if minor a < minor b then Less
          else if patch a > patch b then Greater
          else if patch a < patch b then Less
          else Equivalent)"
  by (simp add: compareVersions_def parseIfString_def)

text \<open>
  C1: on two \<open>Version\<close> values \<open>compareVersions\<close> compares the triples (major, minor,
  patch) lexicographically. Where the majors differ the result is \<open>Greater\<close> or \<open>Less\<close>
  as the majors are; where they are equal and the minors differ it follows the minors;
  where those are equal too and the patches differ it follows the patches; where all
  three fields are equal it is \<open>Equivalent\<close>.
\<close>

theorem compareVersions_lexicographic:
  "(major a > major b \<longrightarrow> compareVersions (AsVersion a) (AsVersion b) = Inr Greater) \<and>
   (major a < major b \<longrightarrow> compareVersions (AsVersion a) (AsVersion b) = Inr Less) \<and>
   (major a = major b \<and> minor a > minor b \<longrightarrow>
      compareVersions (AsVersion a) (AsVersion b) = Inr Greater) \<and>
   (major a = major b \<and> minor a < minor b \<longrightarrow>
      compareVersions (AsVersion a) (AsVersion b) = Inr Less) \<and>
   (major a = major b \<and> minor a = minor b \<and> patch a > patch b \<longrightarrow>
      compareVersions (AsVersion a) (AsVersion b) = Inr Greater) \<and>
   (major a = major b \<and> minor a = minor b \<and> patch a < patch b \<longrightarrow>
      compareVersions (AsVersion a) (AsVersion b) = Inr Less) \<and>
   (major a = major b \<and> minor a = minor b \<and> patch a = patch b \<longrightarrow>
      compareVersions (AsVersion a) (AsVersion b) = Inr Equivalent)"
  by (simp add: compareVersions_AsVersion)

theorem compareVersions_lexicographic_witness:
  "compareVersions (AsVersion \<lparr>major = 2, minor = 0, patch = 0\<rparr>)
     (AsVersion \<lparr>major = 1, minor = 9, patch = 9\<rparr>) = Inr Greater \<and>
   compareVersions (AsVersion \<lparr>major = 1, minor = 9, patch = 9\<rparr>)
     (AsVersion \<lparr>major = 2, minor = 0, patch = 0\<rparr>) = Inr Less \<and>
   compareVersions (AsVersion \<lparr>major = 1, minor = 3, patch = 0\<rparr>)
     (AsVersion \<lparr>major = 1, minor = 2, patch = 7\<rparr>) = Inr Greater \<and>
   compareVersions (AsVersion \<lparr>major = 1, minor = 2, patch = 7\<rparr>)
     (AsVersion \<lparr>major = 1, minor = 3, patch = 0\<rparr>) = Inr Less \<and>
   compareVersions (AsVersion \<lparr>major = 1, minor = 2, patch = 10\<rparr>)
     (AsVersion \<lparr>major = 1, minor = 2, patch = 3\<rparr>) = Inr Greater \<and>
   compareVersions (AsVersion \<lparr>major = 1, minor = 2, patch = 3\<rparr>)
     (AsVersion \<lparr>major = 1, minor = 2, patch = 10\<rparr>) = Inr Less \<and>
   compareVersions (AsVersion \<lparr>major = 1, minor = 2, patch = 3\<rparr>)
     (AsVersion \<lparr>major = 1, minor = 2, patch = 3\<rparr>) = Inr Equivalent"
  using
    compareVersions_lexicographic
      [of "\<lparr>major = 1, minor = 9, patch = 9\<rparr>" "\<lparr>major = 2, minor = 0, patch = 0\<rparr>"]
    compareVersions_lexicographic
      [of "\<lparr>major = 2, minor = 0, patch = 0\<rparr>" "\<lparr>major = 1, minor = 9, patch = 9\<rparr>"]
    compareVersions_lexicographic
      [of "\<lparr>major = 1, minor = 2, patch = 7\<rparr>" "\<lparr>major = 1, minor = 3, patch = 0\<rparr>"]
    compareVersions_lexicographic
      [of "\<lparr>major = 1, minor = 3, patch = 0\<rparr>" "\<lparr>major = 1, minor = 2, patch = 7\<rparr>"]
    compareVersions_lexicographic
      [of "\<lparr>major = 1, minor = 2, patch = 3\<rparr>" "\<lparr>major = 1, minor = 2, patch = 10\<rparr>"]
    compareVersions_lexicographic
      [of "\<lparr>major = 1, minor = 2, patch = 10\<rparr>" "\<lparr>major = 1, minor = 2, patch = 3\<rparr>"]
    compareVersions_lexicographic
      [of "\<lparr>major = 1, minor = 2, patch = 3\<rparr>" "\<lparr>major = 1, minor = 2, patch = 3\<rparr>"]
  by simp



text \<open>
  C3: a string that contains no digits, dot, digits, dot, digits makes \<open>parseVersion\<close>
  fail with \<open>InvalidVersionString\<close>, the message being \<open>Invalid version string\<close>
  followed by the input. It is the only failure: \<open>parseVersion\<close> fails on no other
  string and with no other error, and every error of \<open>compareVersions\<close> is that error
  of \<open>parseVersion\<close> for one of its string arguments. The example of the claim,
  \<open>abc\<close>, is the witness.
\<close>

theorem parseVersion_fails:
  "(\<not> containsVersion s \<longrightarrow>
      parseVersion s = Inl (InvalidVersionString (''Invalid version string '' @ s))) \<and>
   (parseVersion s = Inl e \<longrightarrow>
      \<not> containsVersion s \<and> e = InvalidVersionString (''Invalid version string '' @ s)) \<and>
   (compareVersions a b = Inl e \<longrightarrow>
      (\<exists>t. (a = AsString t \<or> b = AsString t) \<and> \<not> containsVersion t \<and>
           e = InvalidVersionString (''Invalid version string '' @ t)))"
proof -
  have fails: "parseVersion t = Inl (InvalidVersionString (''Invalid version string '' @ t))"
    if "\<not> containsVersion t" for t
    using that by (simp add: parseVersion_no_match version_re_exec_None_iff)
  have only: "\<not> containsVersion t \<and> e' = InvalidVersionString (''Invalid version string '' @ t)"
    if "parseVersion t = Inl e'" for t e'
  proof -
    from that have "version_re_exec t = None"
      by (auto simp: parseVersion_def split: option.splits)
    with that show ?thesis
      by (simp add: parseVersion_no_match version_re_exec_None_iff)
  qed
  have cmp: "\<exists>t. (a = AsString t \<or> b = AsString t) \<and> \<not> containsVersion t \<and>
           e = InvalidVersionString (''Invalid version string '' @ t)"
    if "compareVersions a b = Inl e"
  proof -
    from that have "(\<exists>t. a = AsString t \<and> parseVersion t = Inl e) \<or>
        (\<exists>t. b = AsString t \<and> parseVersion t = Inl e)"
      by (auto simp: compareVersions_def parseIfString_def
          split: sum.splits VersionOrString.splits)
    with only show ?thesis by blast
  qed
  from fails only cmp show ?thesis by blast
qed

theorem parseVersion_fails_witness:
  "\<not> containsVersion ''abc'' \<and>
   parseVersion ''abc'' = Inl (InvalidVersionString ''Invalid version string abc'')"
proof -
  have "version_re_exec ''abc'' = None" by code_simp
  then have "\<not> containsVersion ''abc''"
    using version_re_exec_None_iff [of "''abc''"] by blast
  moreover from parseVersion_fails [of "''abc''" "InvalidVersionString []" "AsString []" "AsString []"]
  have "\<not> containsVersion ''abc'' \<longrightarrow>
      parseVersion ''abc'' = Inl (InvalidVersionString (''Invalid version string '' @ ''abc''))"
    by (rule conjunct1)
  ultimately show ?thesis by simp
qed



text \<open>
  C5: an argument of \<open>compareVersions\<close> that is a string is parsed with
  \<open>parseVersion\<close> first. A failure of the parse is the result of the comparison (the
  first argument is parsed first); a string that parses is compared as the
  \<open>Version\<close> it parses to. So a string against the \<open>Version\<close> parsed from it is
  \<open>Equivalent\<close>, for every string that contains a version.
\<close>

theorem compareVersions_string_arguments:
  "(parseVersion s = Inl e \<longrightarrow> compareVersions (AsString s) b = Inl e) \<and>
   (parseVersion t = Inl e \<longrightarrow> compareVersions (AsVersion va) (AsString t) = Inl e) \<and>
   (parseVersion s = Inr va \<and> parseVersion t = Inl e \<longrightarrow>
      compareVersions (AsString s) (AsString t) = Inl e) \<and>
   (parseVersion s = Inr va \<longrightarrow>
      compareVersions (AsString s) (AsVersion vb) = compareVersions (AsVersion va) (AsVersion vb)) \<and>
   (parseVersion t = Inr vb \<longrightarrow>
      compareVersions (AsVersion va) (AsString t) = compareVersions (AsVersion va) (AsVersion vb)) \<and>
   (parseVersion s = Inr va \<and> parseVersion t = Inr vb \<longrightarrow>
      compareVersions (AsString s) (AsString t) = compareVersions (AsVersion va) (AsVersion vb)) \<and>
   (parseVersion s = Inr v \<longrightarrow> compareVersions (AsString s) (AsVersion v) = Inr Equivalent) \<and>
   (containsVersion s \<longrightarrow>
      (\<exists>v. parseVersion s = Inr v \<and> compareVersions (AsString s) (AsVersion v) = Inr Equivalent))"
proof -
  have eq: "compareVersions (AsString s) (AsVersion v) = Inr Equivalent"
    if "parseVersion s = Inr v" for v
    using that by (simp add: compareVersions_def parseIfString_def)
  have "\<exists>v. parseVersion s = Inr v" if "containsVersion s"
    using that version_re_exec_None_iff [of s]
    by (auto simp: parseVersion_def split: option.splits)
  with eq have valid: "containsVersion s \<longrightarrow>
      (\<exists>v. parseVersion s = Inr v \<and> compareVersions (AsString s) (AsVersion v) = Inr Equivalent)"
    by blast
  have rest:
   "(parseVersion s = Inl e \<longrightarrow> compareVersions (AsString s) b = Inl e) \<and>
   (parseVersion t = Inl e \<longrightarrow> compareVersions (AsVersion va) (AsString t) = Inl e) \<and>
   (parseVersion s = Inr va \<and> parseVersion t = Inl e \<longrightarrow>
      compareVersions (AsString s) (AsString t) = Inl e) \<and>
   (parseVersion s = Inr va \<longrightarrow>
      compareVersions (AsString s) (AsVersion vb) = compareVersions (AsVersion va) (AsVersion vb)) \<and>
   (parseVersion t = Inr vb \<longrightarrow>
      compareVersions (AsVersion va) (AsString t) = compareVersions (AsVersion va) (AsVersion vb)) \<and>
   (parseVersion s = Inr va \<and> parseVersion t = Inr vb \<longrightarrow>
      compareVersions (AsString s) (AsString t) = compareVersions (AsVersion va) (AsVersion vb))"
    by (simp add: compareVersions_def parseIfString_def)
  from rest eq valid show ?thesis by blast
qed

theorem compareVersions_string_arguments_witness:
  "parseVersion ''1.2.3'' = Inr \<lparr>major = 1, minor = 2, patch = 3\<rparr> \<and>
   compareVersions (AsString ''1.2.3'') (AsVersion \<lparr>major = 1, minor = 2, patch = 3\<rparr>)
     = Inr Equivalent \<and>
   parseVersion ''abc'' = Inl (InvalidVersionString ''Invalid version string abc'') \<and>
   compareVersions (AsString ''1.2.3'') (AsString ''abc'')
     = Inl (InvalidVersionString ''Invalid version string abc'')"
proof -
  have p: "parseVersion ''1.2.3'' = Inr \<lparr>major = 1, minor = 2, patch = 3\<rparr>"
    by code_simp
  have q: "parseVersion ''abc'' = Inl (InvalidVersionString ''Invalid version string abc'')"
    by code_simp
  from p q show ?thesis
    using compareVersions_string_arguments
      [of "''1.2.3''" "InvalidVersionString ''Invalid version string abc''"
          "AsString ''abc''" "''abc''" "\<lparr>major = 1, minor = 2, patch = 3\<rparr>"
          "\<lparr>major = 1, minor = 2, patch = 3\<rparr>" "\<lparr>major = 1, minor = 2, patch = 3\<rparr>"]
    by blast
qed



text \<open>
  C7: each boolean wrapper is its predicate over \<open>compareVersions\<close>:
  \<open>versionGreater\<close> is true exactly on \<open>Greater\<close>, \<open>versionGreaterOrEquals\<close> on
  \<open>Greater\<close> or \<open>Equivalent\<close>, \<open>versionEquals\<close> on \<open>Equivalent\<close>, \<open>versionLess\<close> on
  \<open>Less\<close>, \<open>versionLessOrEquals\<close> on \<open>Less\<close> or \<open>Equivalent\<close>; a wrapper fails
  exactly when the comparison fails, with its error. The two examples of the claim
  are part of the statement.
\<close>

theorem boolean_wrappers:
  "(versionGreater a b = Inr True \<longleftrightarrow> compareVersions a b = Inr Greater) \<and>
   (versionGreaterOrEquals a b = Inr True \<longleftrightarrow>
      compareVersions a b = Inr Greater \<or> compareVersions a b = Inr Equivalent) \<and>
   (versionEquals a b = Inr True \<longleftrightarrow> compareVersions a b = Inr Equivalent) \<and>
   (versionLess a b = Inr True \<longleftrightarrow> compareVersions a b = Inr Less) \<and>
   (versionLessOrEquals a b = Inr True \<longleftrightarrow>
      compareVersions a b = Inr Less \<or> compareVersions a b = Inr Equivalent) \<and>
   (versionGreater a b = Inl e \<longleftrightarrow> compareVersions a b = Inl e) \<and>
   (versionGreaterOrEquals a b = Inl e \<longleftrightarrow> compareVersions a b = Inl e) \<and>
   (versionEquals a b = Inl e \<longleftrightarrow> compareVersions a b = Inl e) \<and>
   (versionLess a b = Inl e \<longleftrightarrow> compareVersions a b = Inl e) \<and>
   (versionLessOrEquals a b = Inl e \<longleftrightarrow> compareVersions a b = Inl e) \<and>
   versionGreaterOrEquals (AsString ''1.0.0'') (AsString ''1.0.0'') = Inr True \<and>
   versionLess (AsString ''1.0.0'') (AsString ''1.0.1'') = Inr True"
proof -
  have "versionGreaterOrEquals (AsString ''1.0.0'') (AsString ''1.0.0'') = Inr True"
    by code_simp
  moreover have "versionLess (AsString ''1.0.0'') (AsString ''1.0.1'') = Inr True"
    by code_simp
  moreover have
   "(versionGreater a b = Inr True \<longleftrightarrow> compareVersions a b = Inr Greater) \<and>
   (versionGreaterOrEquals a b = Inr True \<longleftrightarrow>
      compareVersions a b = Inr Greater \<or> compareVersions a b = Inr Equivalent) \<and>
   (versionEquals a b = Inr True \<longleftrightarrow> compareVersions a b = Inr Equivalent) \<and>
   (versionLess a b = Inr True \<longleftrightarrow> compareVersions a b = Inr Less) \<and>
   (versionLessOrEquals a b = Inr True \<longleftrightarrow>
      compareVersions a b = Inr Less \<or> compareVersions a b = Inr Equivalent) \<and>
   (versionGreater a b = Inl e \<longleftrightarrow> compareVersions a b = Inl e) \<and>
   (versionGreaterOrEquals a b = Inl e \<longleftrightarrow> compareVersions a b = Inl e) \<and>
   (versionEquals a b = Inl e \<longleftrightarrow> compareVersions a b = Inl e) \<and>
   (versionLess a b = Inl e \<longleftrightarrow> compareVersions a b = Inl e) \<and>
   (versionLessOrEquals a b = Inl e \<longleftrightarrow> compareVersions a b = Inl e)"
    by (cases "compareVersions a b")
      (auto simp: versionGreater_def versionGreaterOrEquals_def versionEquals_def
        versionLess_def versionLessOrEquals_def)
  ultimately show ?thesis by blast
qed

theorem boolean_wrappers_witness:
  "compareVersions (AsString ''1.0.0'') (AsString ''1.0.1'') = Inr Less \<and>
   versionLess (AsString ''1.0.0'') (AsString ''1.0.1'') = Inr True \<and>
   versionLessOrEquals (AsString ''1.0.0'') (AsString ''1.0.1'') = Inr True"
proof -
  have "compareVersions (AsString ''1.0.0'') (AsString ''1.0.1'') = Inr Less"
    by code_simp
  then show ?thesis
    using boolean_wrappers [of "AsString ''1.0.0''" "AsString ''1.0.1''" "InvalidVersionString []"]
    by blast
qed
text \<open>
  C8: the numeric comparator \<open>compareVersion\<close> and \<open>compareVersions\<close> agree on all
  \<open>Version\<close> values: the difference is positive exactly when the ordering is
  \<open>Greater\<close>, zero exactly when it is \<open>Equivalent\<close>, negative exactly when it is
  \<open>Less\<close>.
\<close>

theorem compareVersion_agrees_with_compareVersions:
  "(compareVersion a b > 0 \<longleftrightarrow> compareVersions (AsVersion a) (AsVersion b) = Inr Greater) \<and>
   (compareVersion a b = 0 \<longleftrightarrow> compareVersions (AsVersion a) (AsVersion b) = Inr Equivalent) \<and>
   (compareVersion a b < 0 \<longleftrightarrow> compareVersions (AsVersion a) (AsVersion b) = Inr Less)"
  by (simp add: compareVersion_def compareVersions_AsVersion)

theorem compareVersion_agrees_with_compareVersions_witness:
  "compareVersion \<lparr>major = 1, minor = 2, patch = 3\<rparr> \<lparr>major = 1, minor = 2, patch = 10\<rparr> < 0 \<and>
   compareVersions (AsVersion \<lparr>major = 1, minor = 2, patch = 3\<rparr>)
     (AsVersion \<lparr>major = 1, minor = 2, patch = 10\<rparr>) = Inr Less"
proof -
  have "compareVersion \<lparr>major = 1, minor = 2, patch = 3\<rparr> \<lparr>major = 1, minor = 2, patch = 10\<rparr> < 0"
    by (simp add: compareVersion_def)
  then show ?thesis
    using compareVersion_agrees_with_compareVersions
      [of "\<lparr>major = 1, minor = 2, patch = 3\<rparr>" "\<lparr>major = 1, minor = 2, patch = 10\<rparr>"]
    by blast
qed





end
